theory Spec2Isabelle
  imports Main "HOL-Library.AList"
begin

section \<open>Data model of the chess room server\<close>

text \<open>
  The server (\<^verbatim>\<open>server.js\<close>) keeps one process-wide \<^verbatim>\<open>rooms = new Map()\<close> from room id
  to a room object \<^verbatim>\<open>{ roomId, players: [{ id, username }] }\<close>.  Socket ids and room ids
  are strings.  A player entry stores \<^verbatim>\<open>socket.id\<close> and \<^verbatim>\<open>socket.data?.username\<close>; the latter
  is \<^verbatim>\<open>undefined\<close> (here \<open>None\<close>) until the socket has sent a \<^verbatim>\<open>username\<close> event.
  The server never looks inside a move: it is carried here as a string.
\<close>

type_synonym sid = string
type_synonym rid = string
type_synonym move = string

record player =
  player_id :: sid
  username :: "string option"

record room =
  roomId :: rid
  players :: "player list"

text \<open>
  The join handler reads \<^verbatim>\<open>room.length\<close> of such a room object.  The object literal
  built by \<^verbatim>\<open>createRoom\<close> and the spread \<^verbatim>\<open>{...room, players: [...]}\<close> built by \<^verbatim>\<open>joinRoom\<close>
  have the two properties \<^verbatim>\<open>roomId\<close> and \<^verbatim>\<open>players\<close> only, so the property read yields
  \<^verbatim>\<open>undefined\<close>; a relational comparison of \<^verbatim>\<open>undefined\<close> with a number converts it
  to NaN and is false.
\<close>

datatype js_number = Undefined | Num int

definition room_length :: "room \<Rightarrow> js_number" where
  "room_length room = Undefined"

fun js_le :: "js_number \<Rightarrow> int \<Rightarrow> bool" where
  "js_le Undefined n = False"
| "js_le (Num m) n = (m \<le> n)"

fun js_ge :: "js_number \<Rightarrow> int \<Rightarrow> bool" where
  "js_ge Undefined n = False"
| "js_ge (Num m) n = (m \<ge> n)"

text \<open>
  The state of the process: the \<^verbatim>\<open>rooms\<close> map as an association list in insertion order
  (\<^verbatim>\<open>rooms.set\<close> is \<open>AList.update\<close>: an existing key keeps its place, a new key goes last;
  \<^verbatim>\<open>rooms.delete\<close> is \<open>AList.delete\<close>; \<^verbatim>\<open>rooms.get\<close> is \<open>map_of\<close>), the transport's room
  membership (\<open>adapter s r\<close> lists the sockets that are in the socket.io room \<open>r\<close>, in the
  order they joined), and \<^verbatim>\<open>socket.data.username\<close> of every socket.
\<close>

record server =
  rooms :: "(rid \<times> room) list"
  adapter :: "rid \<Rightarrow> sid list"
  data_username :: "sid \<Rightarrow> string option"

definition init :: server where
  "init = \<lparr>rooms = [], adapter = (\<lambda>r. []), data_username = (\<lambda>c. None)\<rparr>"

text \<open>
  What a handler does besides changing the state: the events it delivers to other sockets
  (recipient and payload, in order), the values it passes to the client's reply callback,
  and whether it ends by throwing (calling a callback that is \<^verbatim>\<open>undefined\<close> is a
  \<^verbatim>\<open>TypeError\<close>; the statements after the call do not run).
\<close>

datatype payload =
    OpponentJoined room
  | Move move
  | PlayerDisconnected player
  | CloseRoom rid

datatype reply =
    RoomIdReply rid
  | ErrorReply bool string
  | RoomReply room

record outcome =
  state :: server
  sent :: "(sid \<times> payload) list"
  replies :: "reply list"
  thrown :: bool

section \<open>The transport (socket.io) operations the handlers call\<close>

text \<open>
  \<^verbatim>\<open>socket.join(r)\<close> adds the socket to room \<open>r\<close> (a set: joining twice changes nothing),
  \<^verbatim>\<open>s.leave(r)\<close> removes it, and a socket that disconnects has left all its rooms when
  its \<^verbatim>\<open>disconnect\<close> listener runs.  On connection a socket joins the room named by its
  own id.  \<^verbatim>\<open>socket.to(r).emit(ev, x)\<close> broadcasts to room \<open>r\<close> with the room named
  \<^verbatim>\<open>socket.id\<close> as the exception: \<open>x\<close> is delivered to every socket in room \<open>r\<close> that is
  not in the room named by the sender's id.  As long as the sender is in its own room,
  that leaves out the sender.
\<close>

definition socket_join :: "server \<Rightarrow> sid \<Rightarrow> rid \<Rightarrow> server" where
  "socket_join s c r =
     s\<lparr>adapter := (adapter s)(r := (if c \<in> set (adapter s r) then adapter s r
                                     else adapter s r @ [c]))\<rparr>"

definition socket_leave :: "sid \<Rightarrow> rid \<Rightarrow> server \<Rightarrow> server" where
  "socket_leave c r s = s\<lparr>adapter := (adapter s)(r := removeAll c (adapter s r))\<rparr>"

definition leave_all :: "server \<Rightarrow> sid \<Rightarrow> server" where
  "leave_all s c = s\<lparr>adapter := (\<lambda>r. removeAll c (adapter s r))\<rparr>"

definition emit_to :: "server \<Rightarrow> sid \<Rightarrow> rid \<Rightarrow> payload \<Rightarrow> (sid \<times> payload) list" where
  "emit_to s c r x = map (\<lambda>t. (t, x)) (filter (\<lambda>t. t \<notin> set (adapter s c)) (adapter s r))"

section \<open>The event handlers\<close>

text \<open>
  One function per listener registered in \<^verbatim>\<open>io.on('connection', ...)\<close>.  A handler takes
  the state and the sending socket's id and returns an \<open>outcome\<close>; it is run to completion
  (the awaited transport calls \<^verbatim>\<open>socket.join\<close> and \<^verbatim>\<open>fetchSockets\<close> finish before another
  event is handled).  Event payloads have the shape the client sends
  (\<^verbatim>\<open>{ roomId }\<close>, \<^verbatim>\<open>{ room, move }\<close>).
\<close>

definition connection :: "server \<Rightarrow> sid \<Rightarrow> outcome" where
  "connection s c = \<lparr>state = socket_join s c c, sent = [], replies = [], thrown = False\<rparr>"

definition username_event :: "server \<Rightarrow> sid \<Rightarrow> string \<Rightarrow> outcome" where
  "username_event s c name =
     \<lparr>state = s\<lparr>data_username := (data_username s)(c := Some name)\<rparr>,
      sent = [], replies = [], thrown = False\<rparr>"

text \<open>
  \<^verbatim>\<open>createRoom\<close>: \<open>rid\<close> is the value \<^verbatim>\<open>uuidV4()\<close> returned for this request and
  \<open>callback\<close> tells whether the client passed a reply callback.
\<close>

definition createRoom :: "server \<Rightarrow> sid \<Rightarrow> rid \<Rightarrow> bool \<Rightarrow> outcome" where
  "createRoom s c rid callback =
     (let s1 = socket_join s c rid;
          s2 = s1\<lparr>rooms := AList.update rid
                 \<lparr>roomId = rid, players = [\<lparr>player_id = c, username = data_username s1 c\<rparr>]\<rparr>
                 (rooms s1)\<rparr>
      in if callback
         then \<lparr>state = s2, sent = [], replies = [RoomIdReply rid], thrown = False\<rparr>
         else \<lparr>state = s2, sent = [], replies = [], thrown = True\<rparr>)"

text \<open>
  \<^verbatim>\<open>joinRoom\<close>: the three checks in the order of the source, then the join.  On the
  error path the callback is called only if it exists; on the success path it is called
  unconditionally, before the \<^verbatim>\<open>opponentJoined\<close> broadcast.
\<close>

definition join_error :: "string \<Rightarrow> server \<Rightarrow> bool \<Rightarrow> outcome" where
  "join_error message s callback =
     \<lparr>state = s, sent = [],
      replies = (if callback then [ErrorReply True message] else []), thrown = False\<rparr>"

definition joinRoom :: "server \<Rightarrow> sid \<Rightarrow> rid \<Rightarrow> bool \<Rightarrow> outcome" where
  "joinRoom s c rid callback =
     (case map_of (rooms s) rid of
        None \<Rightarrow> join_error ''room does not exist'' s callback
      | Some room \<Rightarrow>
          if js_le (room_length room) 0 then join_error ''room is empty'' s callback
          else if js_ge (room_length room) 2 then join_error ''room is full'' s callback
          else
            (let s1 = socket_join s c rid;
                 roomUpdate = room\<lparr>players := players room @
                                [\<lparr>player_id = c, username = data_username s1 c\<rparr>]\<rparr>;
                 s2 = s1\<lparr>rooms := AList.update rid roomUpdate (rooms s1)\<rparr>
             in if callback
                then \<lparr>state = s2, sent = emit_to s2 c rid (OpponentJoined roomUpdate),
                      replies = [RoomReply roomUpdate], thrown = False\<rparr>
                else \<lparr>state = s2, sent = [], replies = [], thrown = True\<rparr>))"

definition move_event :: "server \<Rightarrow> sid \<Rightarrow> rid \<Rightarrow> move \<Rightarrow> outcome" where
  "move_event s c r m = \<lparr>state = s, sent = emit_to s c r (Move m), replies = [], thrown = False\<rparr>"

text \<open>
  \<^verbatim>\<open>disconnect\<close>: the listener walks a snapshot of \<^verbatim>\<open>rooms.values()\<close>.  For a room that
  lists the socket (\<^verbatim>\<open>find\<close> returns the first entry with its id), it deletes the entry
  \<^verbatim>\<open>room.roomId\<close> when the list has fewer than two players, and otherwise broadcasts
  \<^verbatim>\<open>playerDisconnected\<close> with the entry found.  The accumulator is the state and the
  events sent so far.
\<close>

definition disconnect_room :: "sid \<Rightarrow> room \<Rightarrow> server \<times> (sid \<times> payload) list \<Rightarrow> server \<times> (sid \<times> payload) list" where
  "disconnect_room c room acc =
     (case find (\<lambda>player. player_id player = c) (players room) of
        None \<Rightarrow> acc
      | Some userInRoom \<Rightarrow>
          if length (players room) < 2
          then ((fst acc)\<lparr>rooms := AList.delete (roomId room) (rooms (fst acc))\<rparr>, snd acc)
          else (fst acc, snd acc @ emit_to (fst acc) c (roomId room) (PlayerDisconnected userInRoom)))"

definition disconnect :: "server \<Rightarrow> sid \<Rightarrow> outcome" where
  "disconnect s c =
     (let s1 = leave_all s c;
          gameRooms = map snd (rooms s1);
          acc = fold (disconnect_room c) gameRooms (s1, [])
      in \<lparr>state = fst acc, sent = snd acc, replies = [], thrown = False\<rparr>)"

text \<open>
  \<^verbatim>\<open>closeRoom\<close>: broadcast to the room, make every socket in it leave, delete the entry.
\<close>

definition closeRoom :: "server \<Rightarrow> sid \<Rightarrow> rid \<Rightarrow> outcome" where
  "closeRoom s c rid =
     (let out = emit_to s c rid (CloseRoom rid);
          clientSockets = adapter s rid;
          s1 = fold (\<lambda>t. socket_leave t rid) clientSockets s;
          s2 = s1\<lparr>rooms := AList.delete rid (rooms s1)\<rparr>
      in \<lparr>state = s2, sent = out, replies = [], thrown = False\<rparr>)"

section \<open>Event sequences\<close>

datatype event =
    Connection sid
  | Username sid string
  | CreateRoomEv sid rid bool
  | JoinRoomEv sid rid bool
  | MoveEv sid rid move
  | DisconnectEv sid
  | CloseRoomEv sid rid

fun step :: "server \<Rightarrow> event \<Rightarrow> outcome" where
  "step s (Connection c) = connection s c"
| "step s (Username c name) = username_event s c name"
| "step s (CreateRoomEv c rid callback) = createRoom s c rid callback"
| "step s (JoinRoomEv c rid callback) = joinRoom s c rid callback"
| "step s (MoveEv c r m) = move_event s c r m"
| "step s (DisconnectEv c) = disconnect s c"
| "step s (CloseRoomEv c rid) = closeRoom s c rid"

definition run :: "server \<Rightarrow> event list \<Rightarrow> server" where
  "run s evs = fold (\<lambda>e st. state (step st e)) evs s"

text \<open>
  A join that would list a socket a second time: \<open>rejoin s e\<close> holds when \<open>e\<close> is a
  \<^verbatim>\<open>joinRoom\<close> for an existing room whose player list already has an entry with the
  sender's id.  \<open>no_rejoin s evs\<close> says that no event of \<open>evs\<close>, run from \<open>s\<close>, is one.
\<close>

fun rejoin :: "server \<Rightarrow> event \<Rightarrow> bool" where
  "rejoin s (JoinRoomEv c rid callback) =
     (case map_of (rooms s) rid of
        None \<Rightarrow> False
      | Some room \<Rightarrow> c \<in> player_id ` set (players room))"
| "rejoin s e = False"

fun no_rejoin :: "server \<Rightarrow> event list \<Rightarrow> bool" where
  "no_rejoin s [] = True"
| "no_rejoin s (e # es) = (\<not> rejoin s e \<and> no_rejoin (state (step s e)) es)"

definition handles_unique :: "server \<Rightarrow> bool" where
  "handles_unique s = (\<forall>(k, r) \<in> set (rooms s). distinct (map player_id (players r)))"

text \<open>
  The shape of the store that every handler keeps: keys are unique (it is a map), every
  room object is stored under its own \<^verbatim>\<open>roomId\<close>, and no stored player list is empty.
\<close>

definition store_ok :: "server \<Rightarrow> bool" where
  "store_ok s = (distinct (map fst (rooms s)) \<and>
     (\<forall>(k, r) \<in> set (rooms s). roomId r = k \<and> players r \<noteq> []))"

text \<open>
  The room ids that \<^verbatim>\<open>createRoom\<close> requests of an event sequence were given by the UUID
  generator.  \<open>own_rooms_ok U s\<close>: a transport room whose name is not one of the ids \<open>U\<close>
  holds at most the socket of that name, and the store has no entry for it.
\<close>

fun created :: "event list \<Rightarrow> rid set" where
  "created [] = {}"
| "created (CreateRoomEv c rid callback # es) = insert rid (created es)"
| "created (e # es) = created es"

definition own_rooms_ok :: "rid set \<Rightarrow> server \<Rightarrow> bool" where
  "own_rooms_ok U s = (\<forall>r. r \<notin> U \<longrightarrow> set (adapter s r) \<subseteq> {r} \<and> map_of (rooms s) r = None)"

section \<open>Sample sessions\<close>

text \<open>
  Ann (socket \<open>sA\<close>) connects, names herself and creates room \<open>r1\<close>; in \<open>game2\<close> Bob
  (socket \<open>sB\<close>) then connects, names himself and joins it.  A third socket \<open>sC\<close> never
  sends a username.
\<close>

definition ann :: player where
  "ann = \<lparr>player_id = ''sA'', username = Some ''ann''\<rparr>"

definition bob :: player where
  "bob = \<lparr>player_id = ''sB'', username = Some ''bob''\<rparr>"

definition cat :: player where
  "cat = \<lparr>player_id = ''sC'', username = None\<rparr>"

definition waiting_room :: "event list" where
  "waiting_room = [Connection ''sA'', Username ''sA'' ''ann'', CreateRoomEv ''sA'' ''r1'' True]"

definition game2 :: "event list" where
  "game2 = waiting_room @ [Connection ''sB'', Username ''sB'' ''bob'', JoinRoomEv ''sB'' ''r1'' True]"

lemmas eval_defs = run_def init_def connection_def username_event_def createRoom_def joinRoom_def
  join_error_def move_event_def disconnect_def disconnect_room_def closeRoom_def
  socket_join_def socket_leave_def leave_all_def emit_to_def room_length_def Let_def
  waiting_room_def game2_def ann_def bob_def cat_def

lemma rooms_waiting:
  "rooms (run init waiting_room) = [(''r1'', \<lparr>roomId = ''r1'', players = [ann]\<rparr>)]"
  by (simp add: eval_defs)

lemma rooms_game2:
  "rooms (run init game2) = [(''r1'', \<lparr>roomId = ''r1'', players = [ann, bob]\<rparr>)]"
  by (simp add: eval_defs)

section \<open>What each handler does to the store\<close>

lemma set_update_cases:
  "x \<in> set (AList.update k v al) \<Longrightarrow> x = (k, v) \<or> x \<in> set al"
  by (induction al) (auto split: if_splits)

lemma update_fresh_key:
  "k \<notin> fst ` set al \<Longrightarrow> AList.update k v al = al @ [(k, v)]"
  by (induction al) auto

lemma createRoom_rooms:
  "rooms (state (createRoom s c rid callback)) =
     AList.update rid \<lparr>roomId = rid, players = [\<lparr>player_id = c, username = data_username s c\<rparr>]\<rparr> (rooms s)"
  by (simp add: createRoom_def Let_def socket_join_def)

text \<open>
  A join of a room that exists always goes through: neither of the two \<^verbatim>\<open>room.length\<close>
  tests can hold, whatever the length of the player list.
\<close>

lemma joinRoom_existing:
  "map_of (rooms s) rid = Some room \<Longrightarrow>
   rooms (state (joinRoom s c rid callback)) =
     AList.update rid (room\<lparr>players := players room @ [\<lparr>player_id = c, username = data_username s c\<rparr>]\<rparr>) (rooms s)"
  by (simp add: joinRoom_def room_length_def Let_def socket_join_def)

lemma joinRoom_absent:
  "map_of (rooms s) rid = None \<Longrightarrow> state (joinRoom s c rid callback) = s"
  by (simp add: joinRoom_def join_error_def)

subsection \<open>closeRoom\<close>

lemma fold_socket_leave_rooms:
  "rooms (fold (\<lambda>t. socket_leave t r) cs s) = rooms s"
  by (induction cs arbitrary: s) (simp_all add: socket_leave_def)

lemma data_username_fold_leave:
  "data_username (fold (\<lambda>t. socket_leave t r) cs s) = data_username s"
  by (induction cs arbitrary: s) (simp_all add: socket_leave_def)

lemma adapter_socket_leave:
  "adapter (socket_leave c r s) = (adapter s)(r := removeAll c (adapter s r))"
  by (simp add: socket_leave_def)

lemma adapter_fold_leave:
  "adapter (fold (\<lambda>t. socket_leave t r) cs s) =
     (adapter s)(r := filter (\<lambda>x. x \<notin> set cs) (adapter s r))"
proof (induction cs arbitrary: s)
  case Nil
  show ?case by simp
next
  case (Cons c cs)
  have "filter (\<lambda>x. x \<notin> set cs) (removeAll c (adapter s r)) =
        filter (\<lambda>x. x \<notin> set (c # cs)) (adapter s r)"
    by (induction "adapter s r") (auto simp: removeAll_filter_not_eq intro: filter_cong)
  then show ?case
    by (simp add: Cons.IH adapter_socket_leave fun_eq_iff)
qed

lemma closeRoom_outcome:
  "closeRoom s c rid =
     \<lparr>state = s\<lparr>rooms := AList.delete rid (rooms s), adapter := (adapter s)(rid := [])\<rparr>,
      sent = emit_to s c rid (CloseRoom rid), replies = [], thrown = False\<rparr>"
proof -
  let ?s1 = "fold (\<lambda>t. socket_leave t rid) (adapter s rid) s"
  have a: "adapter ?s1 = (adapter s)(rid := [])"
    by (simp add: adapter_fold_leave)
  have r: "rooms ?s1 = rooms s"
    by (rule fold_socket_leave_rooms)
  have u: "data_username ?s1 = data_username s"
    by (rule data_username_fold_leave)
  show ?thesis
    using a r u by (simp add: closeRoom_def Let_def)
qed

subsection \<open>disconnect\<close>

lemma disconnect_room_skip:
  "find (\<lambda>player. player_id player = c) (players room) = None \<Longrightarrow> disconnect_room c room acc = acc"
  by (simp add: disconnect_room_def)

lemma fold_disconnect_room_skip:
  "\<forall>room \<in> set rs. find (\<lambda>player. player_id player = c) (players room) = None \<Longrightarrow>
   fold (disconnect_room c) rs acc = acc"
  by (induction rs arbitrary: acc) (simp_all add: disconnect_room_skip)

text \<open>The walk over the rooms only ever removes entries from the store.\<close>

lemma fold_disconnect_room_filter:
  "\<exists>P. rooms (fst (fold (disconnect_room c) rs acc)) = filter P (rooms (fst acc))"
proof (induction rs arbitrary: acc)
  case Nil
  have "rooms (fst acc) = filter (\<lambda>x. True) (rooms (fst acc))" by simp
  then show ?case by (simp del: filter_True) blast
next
  case (Cons r rs)
  obtain Q where q: "rooms (fst (disconnect_room c r acc)) = filter Q (rooms (fst acc))"
  proof (cases "\<exists>u. find (\<lambda>player. player_id player = c) (players r) = Some u \<and> length (players r) < 2")
    case True
    then have "rooms (fst (disconnect_room c r acc)) = filter (\<lambda>(k, v). roomId r \<noteq> k) (rooms (fst acc))"
      by (auto simp: disconnect_room_def AList.delete_eq)
    then show ?thesis using that by blast
  next
    case False
    then have "rooms (fst (disconnect_room c r acc)) = filter (\<lambda>x. True) (rooms (fst acc))"
      by (auto simp: disconnect_room_def split: option.splits)
    then show ?thesis using that by blast
  qed
  obtain P where "rooms (fst (fold (disconnect_room c) rs (disconnect_room c r acc))) =
      filter P (rooms (fst (disconnect_room c r acc)))"
    using Cons.IH by blast
  then have "rooms (fst (fold (disconnect_room c) (r # rs) acc)) = filter (\<lambda>x. Q x \<and> P x) (rooms (fst acc))"
    by (simp add: q)
  then show ?case by blast
qed

lemma disconnect_rooms_filter:
  "\<exists>P. rooms (state (disconnect s c)) = filter P (rooms s)"
  using fold_disconnect_room_filter [of c "map snd (rooms (leave_all s c))" "(leave_all s c, [])"]
  by (simp add: disconnect_def Let_def leave_all_def)

subsection \<open>Invariants of the store\<close>

lemma handles_unique_step:
  assumes "handles_unique s" and "\<not> rejoin s e"
  shows "handles_unique (state (step s e))"
proof (cases e)
  case (Connection c)
  with assms show ?thesis by (simp add: handles_unique_def connection_def socket_join_def)
next
  case (Username c name)
  with assms show ?thesis by (simp add: handles_unique_def username_event_def)
next
  case (CreateRoomEv c rid callback)
  with assms show ?thesis
    by (auto simp: handles_unique_def createRoom_rooms dest!: set_update_cases)
next
  case (JoinRoomEv c rid callback)
  show ?thesis
  proof (cases "map_of (rooms s) rid")
    case None
    with assms JoinRoomEv show ?thesis by (simp add: joinRoom_absent)
  next
    case (Some room)
    then have "(rid, room) \<in> set (rooms s)" by (rule map_of_SomeD)
    with assms have "distinct (map player_id (players room))"
      by (auto simp: handles_unique_def)
    moreover from assms JoinRoomEv Some have "c \<notin> player_id ` set (players room)" by simp
    ultimately show ?thesis
      using assms JoinRoomEv Some
      by (auto simp: handles_unique_def joinRoom_existing dest!: set_update_cases)
  qed
next
  case (MoveEv c r m)
  with assms show ?thesis by (simp add: handles_unique_def move_event_def)
next
  case (DisconnectEv c)
  obtain P where "rooms (state (disconnect s c)) = filter P (rooms s)"
    using disconnect_rooms_filter by blast
  with assms DisconnectEv show ?thesis by (auto simp: handles_unique_def)
next
  case (CloseRoomEv c rid)
  with assms show ?thesis
    by (auto simp: handles_unique_def closeRoom_outcome AList.delete_eq)
qed

lemma handles_unique_run:
  "handles_unique s \<Longrightarrow> no_rejoin s evs \<Longrightarrow> handles_unique (run s evs)"
proof (induction evs arbitrary: s)
  case Nil
  then show ?case by (simp add: run_def)
next
  case (Cons e evs)
  then have "handles_unique (run (state (step s e)) evs)"
    by (simp add: handles_unique_step)
  then show ?case by (simp add: run_def)
qed

lemma store_ok_step:
  assumes "store_ok s"
  shows "store_ok (state (step s e))"
proof (cases e)
  case (Connection c)
  with assms show ?thesis by (simp add: store_ok_def connection_def socket_join_def)
next
  case (Username c name)
  with assms show ?thesis by (simp add: store_ok_def username_event_def)
next
  case (CreateRoomEv c rid callback)
  with assms show ?thesis
    by (auto simp: store_ok_def createRoom_rooms AList.distinct_update dest!: set_update_cases)
next
  case (JoinRoomEv c rid callback)
  show ?thesis
  proof (cases "map_of (rooms s) rid")
    case None
    with assms JoinRoomEv show ?thesis by (simp add: joinRoom_absent)
  next
    case (Some room)
    then have "(rid, room) \<in> set (rooms s)" by (rule map_of_SomeD)
    with assms have "roomId room = rid"
      by (auto simp: store_ok_def)
    then show ?thesis
      using assms JoinRoomEv Some
      by (auto simp: store_ok_def joinRoom_existing AList.distinct_update dest!: set_update_cases)
  qed
next
  case (MoveEv c r m)
  with assms show ?thesis by (simp add: store_ok_def move_event_def)
next
  case (DisconnectEv c)
  obtain P where "rooms (state (disconnect s c)) = filter P (rooms s)"
    using disconnect_rooms_filter by blast
  with assms DisconnectEv show ?thesis by (auto simp: store_ok_def distinct_map_filter)
next
  case (CloseRoomEv c rid)
  with assms show ?thesis
    by (auto simp: store_ok_def closeRoom_outcome AList.distinct_delete) (auto simp: AList.delete_eq)
qed

lemma store_ok_run: "store_ok s \<Longrightarrow> store_ok (run s evs)"
proof (induction evs arbitrary: s)
  case Nil
  then show ?case by (simp add: run_def)
next
  case (Cons e evs)
  then have "store_ok (run (state (step s e)) evs)"
    by (simp add: store_ok_step)
  then show ?case by (simp add: run_def)
qed

text \<open>
  After any sequence of events the store's keys are unique, each room is stored under
  its own id, and no stored room has an empty player list.
\<close>

lemma store_ok_reachable: "store_ok (run init evs)"
  by (rule store_ok_run) (simp add: store_ok_def init_def)

lemma fold_disconnect_room_adapter:
  "adapter (fst (fold (disconnect_room c) rs acc)) = adapter (fst acc)"
proof (induction rs arbitrary: acc)
  case Nil
  show ?case by simp
next
  case (Cons r rs)
  have "adapter (fst (disconnect_room c r acc)) = adapter (fst acc)"
    by (simp add: disconnect_room_def split: option.splits)
  then show ?case by (simp add: Cons.IH)
qed

lemma disconnect_adapter:
  "adapter (state (disconnect s c)) = (\<lambda>r. removeAll c (adapter s r))"
  by (simp add: disconnect_def Let_def fold_disconnect_room_adapter leave_all_def)

lemma own_rooms_ok_step:
  assumes ok: "own_rooms_ok U s" and gen: "created [e] \<subseteq> U"
  shows "own_rooms_ok U (state (step s e))"
proof (cases e)
  case (Connection c)
  with ok show ?thesis
    by (auto simp: own_rooms_ok_def connection_def socket_join_def)
next
  case (Username c name)
  with ok show ?thesis by (simp add: own_rooms_ok_def username_event_def)
next
  case (CreateRoomEv c rid callback)
  with gen have "rid \<in> U" by simp
  then have "r \<noteq> rid" if "r \<notin> U" for r using that by blast
  with ok CreateRoomEv show ?thesis
    by (simp add: own_rooms_ok_def createRoom_def Let_def socket_join_def AList.update_conv')
next
  case (JoinRoomEv c rid callback)
  show ?thesis
  proof (cases "map_of (rooms s) rid")
    case None
    with ok JoinRoomEv show ?thesis by (simp add: joinRoom_absent)
  next
    case (Some room)
    with ok have "rid \<in> U" by (auto simp: own_rooms_ok_def)
    then have "r \<noteq> rid" if "r \<notin> U" for r using that by blast
    with ok JoinRoomEv Some show ?thesis
      by (simp add: own_rooms_ok_def joinRoom_def room_length_def Let_def socket_join_def
          AList.update_conv')
  qed
next
  case (MoveEv c r m)
  with ok show ?thesis by (simp add: own_rooms_ok_def move_event_def)
next
  case (DisconnectEv c)
  obtain P where P: "rooms (state (disconnect s c)) = filter P (rooms s)"
    using disconnect_rooms_filter by blast
  have "map_of (filter P (rooms s)) r = None" if "map_of (rooms s) r = None" for r
    using that by (auto simp: map_of_eq_None_iff)
  with ok DisconnectEv P show ?thesis
    by (auto simp: own_rooms_ok_def disconnect_adapter)
next
  case (CloseRoomEv c rid)
  with ok show ?thesis
    by (auto simp: own_rooms_ok_def closeRoom_outcome AList.delete_conv')
qed

lemma own_rooms_ok_run:
  "own_rooms_ok U s \<Longrightarrow> created evs \<subseteq> U \<Longrightarrow> own_rooms_ok U (run s evs)"
proof (induction evs arbitrary: s)
  case Nil
  then show ?case by (simp add: run_def)
next
  case (Cons e evs)
  have "created [e] \<subseteq> U" "created evs \<subseteq> U"
    using Cons.prems(2) by (cases e; simp)+
  with Cons have "own_rooms_ok U (run (state (step s e)) evs)"
    by (simp add: own_rooms_ok_step)
  then show ?case by (simp add: run_def)
qed

text \<open>
  After any sequence of events, a socket whose id the UUID generator never returned as a
  room id shares the transport room of its own name with no other socket, and the store
  has no entry under that name.
\<close>

lemma own_room_reachable:
  "c \<notin> created evs \<Longrightarrow>
   set (adapter (run init evs) c) \<subseteq> {c} \<and> map_of (rooms (run init evs)) c = None"
proof -
  have "own_rooms_ok (created evs) init"
    by (simp add: own_rooms_ok_def init_def)
  then have "own_rooms_ok (created evs) (run init evs)"
    by (rule own_rooms_ok_run) simp
  then show "c \<notin> created evs \<Longrightarrow>
      set (adapter (run init evs) c) \<subseteq> {c} \<and> map_of (rooms (run init evs)) c = None"
    by (simp add: own_rooms_ok_def)
qed

section \<open>Joining a room\<close>

text \<open>
  C1. A \<^verbatim>\<open>joinRoom\<close> for a room whose player list already has two entries should be
  answered with \<^verbatim>\<open>{ error: true, message: 'room is full' }\<close> and leave the store as it
  is.  Evaluated on the handler: room \<open>r1\<close> lists Ann and Bob, a third socket \<open>sC\<close> sends
  \<^verbatim>\<open>joinRoom\<close> for \<open>r1\<close> with a callback.  The reply is the room with three players, the
  store holds the three-player room, and \<^verbatim>\<open>opponentJoined\<close> goes to both players: the test
  reads \<^verbatim>\<open>room.length\<close>, which a room object does not have.
\<close>

theorem joinRoom_full_room_admits_third:
  "map_of (rooms (run init (game2 @ [Connection ''sC'']))) ''r1'' =
     Some \<lparr>roomId = ''r1'', players = [ann, bob]\<rparr> \<and>
   replies (joinRoom (run init (game2 @ [Connection ''sC''])) ''sC'' ''r1'' True) =
     [RoomReply \<lparr>roomId = ''r1'', players = [ann, bob, cat]\<rparr>] \<and>
   rooms (state (joinRoom (run init (game2 @ [Connection ''sC''])) ''sC'' ''r1'' True)) =
     [(''r1'', \<lparr>roomId = ''r1'', players = [ann, bob, cat]\<rparr>)] \<and>
   sent (joinRoom (run init (game2 @ [Connection ''sC''])) ''sC'' ''r1'' True) =
     [(''sA'', OpponentJoined \<lparr>roomId = ''r1'', players = [ann, bob, cat]\<rparr>),
      (''sB'', OpponentJoined \<lparr>roomId = ''r1'', players = [ann, bob, cat]\<rparr>)]"
  by (simp add: eval_defs)

text \<open>
  C2. Every room in the store should list one or two players at every point of every
  event sequence.  Evaluated on the handlers: after Ann creates \<open>r1\<close>, Bob joins it and
  \<open>sC\<close> joins it, the store's one room lists three players.  (The lower bound holds: see
  \<open>store_ok_reachable\<close>.)
\<close>

theorem three_players_reachable:
  "map (\<lambda>(k, r). (k, length (players r)))
     (rooms (run init (game2 @ [Connection ''sC'', JoinRoomEv ''sC'' ''r1'' True]))) = [(''r1'', 3)]"
  by (simp add: eval_defs)

text \<open>
  C4. A \<^verbatim>\<open>joinRoom\<close> that names a room id with no entry in the store changes nothing (the
  store, the transport's rooms and the usernames are as before, nothing is sent, nothing
  is thrown), and its callback, when the client passed one, is called once with
  \<^verbatim>\<open>{ error: true, message: 'room does not exist' }\<close>.
\<close>

theorem joinRoom_not_found:
  "map_of (rooms s) rid = None \<Longrightarrow>
   joinRoom s c rid callback =
     \<lparr>state = s, sent = [],
      replies = (if callback then [ErrorReply True ''room does not exist''] else []),
      thrown = False\<rparr>"
  by (simp add: joinRoom_def join_error_def)

text \<open>Bob asks for a room \<open>r2\<close> while only \<open>r1\<close> exists.\<close>

theorem joinRoom_not_found_witness:
  "map_of (rooms (run init waiting_room)) ''r2'' = None \<and>
   joinRoom (run init waiting_room) ''sB'' ''r2'' True =
     \<lparr>state = run init waiting_room, sent = [],
      replies = [ErrorReply True ''room does not exist''], thrown = False\<rparr>"
proof -
  have h: "map_of (rooms (run init waiting_room)) ''r2'' = None"
    by (simp add: rooms_waiting)
  from joinRoom_not_found [OF h, of "''sB''" True] h show ?thesis by simp
qed

text \<open>
  C7. A request without a reply callback should complete silently, on the failure path
  and on the success path of \<^verbatim>\<open>joinRoom\<close>.  Evaluated on the handler: Bob sends
  \<^verbatim>\<open>joinRoom\<close> for the waiting room \<open>r1\<close> without a callback.  The handler stores the
  two-player room and then throws at \<^verbatim>\<open>callback(roomUpdate)\<close>, so \<^verbatim>\<open>opponentJoined\<close> is never
  sent.  The failure path (room \<open>r2\<close> does not exist) does not throw; \<^verbatim>\<open>createRoom\<close>
  without a callback throws as well.
\<close>

theorem joinRoom_without_callback_throws:
  "thrown (joinRoom (run init (waiting_room @ [Connection ''sB''])) ''sB'' ''r1'' False) \<and>
   sent (joinRoom (run init (waiting_room @ [Connection ''sB''])) ''sB'' ''r1'' False) = [] \<and>
   rooms (state (joinRoom (run init (waiting_room @ [Connection ''sB''])) ''sB'' ''r1'' False)) =
     [(''r1'', \<lparr>roomId = ''r1'', players = [ann, \<lparr>player_id = ''sB'', username = None\<rparr>]\<rparr>)] \<and>
   \<not> thrown (joinRoom (run init (waiting_room @ [Connection ''sB''])) ''sB'' ''r2'' False) \<and>
   thrown (createRoom (run init [Connection ''sA'']) ''sA'' ''r1'' False)"
  by (simp add: eval_defs)

section \<open>Creating a room\<close>

text \<open>
  With a reply callback, \<^verbatim>\<open>createRoom\<close> throws nothing and broadcasts nothing, the callback gets
  the id \<open>rid\<close> that \<^verbatim>\<open>uuidV4()\<close> returned, the store maps \<open>rid\<close> to a room with that id
  whose player list is exactly the creator (socket id and current username) and is
  otherwise as before, and the creator's socket is in the transport room \<open>rid\<close>.  When
  \<open>rid\<close> has no entry yet, the room is appended as a new entry.
\<close>

lemma createRoom_stores_creator:
  "replies (createRoom s c rid True) = [RoomIdReply rid] \<and>
   \<not> thrown (createRoom s c rid True) \<and>
   sent (createRoom s c rid True) = [] \<and>
   map_of (rooms (state (createRoom s c rid True))) =
     (map_of (rooms s))(rid \<mapsto> \<lparr>roomId = rid, players = [\<lparr>player_id = c, username = data_username s c\<rparr>]\<rparr>) \<and>
   c \<in> set (adapter (state (createRoom s c rid True)) rid) \<and>
   (map_of (rooms s) rid = None \<longrightarrow>
      rooms (state (createRoom s c rid True)) =
        rooms s @ [(rid, \<lparr>roomId = rid, players = [\<lparr>player_id = c, username = data_username s c\<rparr>]\<rparr>)])"
proof -
  have "rooms (state (createRoom s c rid True)) =
        rooms s @ [(rid, \<lparr>roomId = rid, players = [\<lparr>player_id = c, username = data_username s c\<rparr>]\<rparr>)]"
    if "map_of (rooms s) rid = None"
  proof -
    from that have "rid \<notin> fst ` set (rooms s)" by (simp add: map_of_eq_None_iff)
    then show ?thesis by (simp add: createRoom_rooms update_fresh_key)
  qed
  moreover have "c \<in> set (adapter (state (createRoom s c rid True)) rid)"
    by (simp add: createRoom_def Let_def socket_join_def)
  moreover have "map_of (rooms (state (createRoom s c rid True))) =
     (map_of (rooms s))(rid \<mapsto> \<lparr>roomId = rid, players = [\<lparr>player_id = c, username = data_username s c\<rparr>]\<rparr>)"
    by (simp add: createRoom_rooms AList.update_conv')
  moreover have "replies (createRoom s c rid True) = [RoomIdReply rid]"
    "\<not> thrown (createRoom s c rid True)" "sent (createRoom s c rid True) = []"
    by (simp_all add: createRoom_def Let_def)
  ultimately show ?thesis by blast
qed

text \<open>
  C5. Every \<^verbatim>\<open>createRoom\<close> request should succeed and return its new room id to the
  caller.  Evaluated on the handler: Ann, connected and named, sends \<^verbatim>\<open>createRoom\<close>
  without a reply callback.  The handler stores room \<open>r1\<close> with Ann as its one player and
  then throws at \<^verbatim>\<open>callback(roomId)\<close>: no reply is given.  With a callback the same request
  stores the same room and is answered with \<open>r1\<close>.
\<close>

theorem createRoom_without_callback_throws:
  "thrown (createRoom (run init [Connection ''sA'', Username ''sA'' ''ann'']) ''sA'' ''r1'' False) \<and>
   replies (createRoom (run init [Connection ''sA'', Username ''sA'' ''ann'']) ''sA'' ''r1'' False) = [] \<and>
   rooms (state (createRoom (run init [Connection ''sA'', Username ''sA'' ''ann'']) ''sA'' ''r1'' False)) =
     [(''r1'', \<lparr>roomId = ''r1'', players = [ann]\<rparr>)] \<and>
   \<not> thrown (createRoom (run init [Connection ''sA'', Username ''sA'' ''ann'']) ''sA'' ''r1'' True) \<and>
   replies (createRoom (run init [Connection ''sA'', Username ''sA'' ''ann'']) ''sA'' ''r1'' True) =
     [RoomIdReply ''r1''] \<and>
   rooms (state (createRoom (run init [Connection ''sA'', Username ''sA'' ''ann'']) ''sA'' ''r1'' True)) =
     [(''r1'', \<lparr>roomId = ''r1'', players = [ann]\<rparr>)]"
  by (simp add: eval_defs)

section \<open>Unique handles\<close>

text \<open>
  C9 (as the code has it). \<^verbatim>\<open>joinRoom\<close> appends the sender without looking for its id in
  the player list.  In every event sequence in which no socket sends \<^verbatim>\<open>joinRoom\<close> for a
  room that already lists it, no player list of the store ever holds the same socket id
  twice.
\<close>

theorem handles_unique_without_rejoin:
  assumes "no_rejoin init evs" and "map_of (rooms (run init evs)) rid = Some room"
  shows "distinct (map player_id (players room))"
proof -
  have "handles_unique init" by (simp add: handles_unique_def init_def)
  then have "handles_unique (run init evs)" using assms(1) by (rule handles_unique_run)
  moreover have "(rid, room) \<in> set (rooms (run init evs))" using assms(2) by (rule map_of_SomeD)
  ultimately show ?thesis by (auto simp: handles_unique_def)
qed

theorem handles_unique_without_rejoin_witness:
  "no_rejoin init game2 \<and>
   map_of (rooms (run init game2)) ''r1'' = Some \<lparr>roomId = ''r1'', players = [ann, bob]\<rparr> \<and>
   distinct (map player_id (players \<lparr>roomId = ''r1'', players = [ann, bob]\<rparr>))"
proof -
  have n: "no_rejoin init game2"
    by (simp add: eval_defs)
  have m: "map_of (rooms (run init game2)) ''r1'' = Some \<lparr>roomId = ''r1'', players = [ann, bob]\<rparr>"
    by (simp add: rooms_game2)
  from handles_unique_without_rejoin [OF n m] n m show ?thesis by blast
qed

text \<open>
  Without the restriction the claim fails: Ann creates \<open>r1\<close> and then sends \<^verbatim>\<open>joinRoom\<close>
  for \<open>r1\<close>; the room lists her twice.
\<close>

theorem creator_joining_own_room_listed_twice:
  "rooms (run init (waiting_room @ [JoinRoomEv ''sA'' ''r1'' True])) =
     [(''r1'', \<lparr>roomId = ''r1'', players = [ann, ann]\<rparr>)] \<and>
   \<not> distinct (map player_id [ann, ann])"
  by (simp add: eval_defs)

section \<open>Relaying moves\<close>




section \<open>Disconnecting\<close>

text \<open>
  C3 (as the code has it). Let the store (unique keys) hold room \<open>R\<close> under its own id,
  let the disconnecting socket \<open>c\<close> be listed in no other room, and let no other socket
  be in the transport room named by \<open>c\<close>'s id.  If \<open>R\<close> lists \<open>c\<close>
  alone, the handler deletes the entry \<open>R\<close> and sends nothing.  If \<open>R\<close> lists two players,
  \<open>c\<close> and another socket \<open>t\<close>, and \<open>t\<close> is the only other socket in the transport room
  \<open>R\<close>, the handler sends exactly one event, \<^verbatim>\<open>playerDisconnected\<close> with the departed
  player's entry, to \<open>t\<close>, and leaves the store as it is: the entry \<open>R\<close> stays until a
  \<^verbatim>\<open>closeRoom\<close> removes it.  In both cases \<open>c\<close> has left the transport rooms.
\<close>

theorem disconnect_notifies_or_deletes:
  assumes keys: "distinct (map fst (rooms s))"
    and entry: "map_of (rooms s) R = Some room"
    and key: "roomId room = R"
    and only: "\<forall>(k, r) \<in> set (rooms s). k \<noteq> R \<longrightarrow> c \<notin> player_id ` set (players r)"
    and own: "set (adapter s c) \<subseteq> {c}"
  shows "(players room = [p] \<and> player_id p = c \<longrightarrow>
            disconnect s c =
              \<lparr>state = (leave_all s c)\<lparr>rooms := AList.delete R (rooms s)\<rparr>,
               sent = [], replies = [], thrown = False\<rparr> \<and>
            map_of (rooms (state (disconnect s c))) R = None) \<and>
         (players room = [p, q] \<and> {player_id p, player_id q} = {c, t} \<and>
          removeAll c (adapter s R) = [t] \<longrightarrow>
            disconnect s c =
              \<lparr>state = leave_all s c,
               sent = [(t, PlayerDisconnected (if player_id p = c then p else q))],
               replies = [], thrown = False\<rparr> \<and>
            rooms (state (disconnect s c)) = rooms s)"
proof -
  let ?s1 = "leave_all s c"
  have r1: "rooms ?s1 = rooms s" by (simp add: leave_all_def)
  from entry have "(R, room) \<in> set (rooms s)" by (rule map_of_SomeD)
  then obtain pre post where split: "rooms s = pre @ (R, room) # post"
    by (auto dest: split_list)
  have others: "\<forall>r \<in> set (map snd pre) \<union> set (map snd post).
      find (\<lambda>player. player_id player = c) (players r) = None"
  proof
    fix r assume "r \<in> set (map snd pre) \<union> set (map snd post)"
    then obtain k where k: "(k, r) \<in> set pre \<union> set post" by fastforce
    with keys split have "k \<noteq> R" by (auto simp: rev_image_eqI)
    moreover from k split have "(k, r) \<in> set (rooms s)" by auto
    ultimately have "c \<notin> player_id ` set (players r)" using only by blast
    then show "find (\<lambda>player. player_id player = c) (players r) = None"
      by (auto simp: find_None_iff)
  qed
  have fold_eq: "fold (disconnect_room c) (map snd (rooms ?s1)) (?s1, []) =
      disconnect_room c room (?s1, [])"
    using others by (simp add: r1 split fold_disconnect_room_skip)
  have out: "disconnect s c = \<lparr>state = fst (disconnect_room c room (?s1, [])),
      sent = snd (disconnect_room c room (?s1, [])), replies = [], thrown = False\<rparr>"
    by (simp add: disconnect_def Let_def fold_eq)
  have one: "disconnect s c =
      \<lparr>state = ?s1\<lparr>rooms := AList.delete R (rooms s)\<rparr>, sent = [], replies = [], thrown = False\<rparr>"
    if "players room = [p]" "player_id p = c"
    using that key by (simp add: out disconnect_room_def r1)
  have "removeAll c (adapter s c) = []"
    using own by (auto simp: removeAll_filter_not_eq filter_empty_conv)
  then have ad: "filter (\<lambda>t. t \<notin> set (adapter ?s1 c)) (adapter ?s1 R) = removeAll c (adapter s R)"
    by (simp add: leave_all_def)
  have two: "disconnect s c =
      \<lparr>state = ?s1, sent = [(t, PlayerDisconnected (if player_id p = c then p else q))],
       replies = [], thrown = False\<rparr>"
    if "players room = [p, q]" "{player_id p, player_id q} = {c, t}" "removeAll c (adapter s R) = [t]"
  proof -
    from that(2) have "c \<in> {player_id p, player_id q}" by blast
    with that(1,3) key ad show ?thesis
      by (auto simp: out disconnect_room_def emit_to_def)
  qed
  have gone: "map_of (AList.delete R (rooms s)) R = None"
    by (simp add: AList.delete_conv')
  show ?thesis using one two gone r1 by simp
qed

text \<open>
  Bob disconnects from the two-player room \<open>r1\<close>: Ann is told, the store is as before.
  Ann disconnects from the room she is waiting in alone: the store is empty afterwards.
\<close>

theorem disconnect_notifies_or_deletes_witness:
  "map_of (rooms (run init game2)) ''r1'' = Some \<lparr>roomId = ''r1'', players = [ann, bob]\<rparr> \<and>
   removeAll ''sB'' (adapter (run init game2) ''r1'') = [''sA''] \<and>
   set (adapter (run init game2) ''sB'') \<subseteq> {''sB''} \<and>
   disconnect (run init game2) ''sB'' =
     \<lparr>state = leave_all (run init game2) ''sB'', sent = [(''sA'', PlayerDisconnected bob)],
      replies = [], thrown = False\<rparr> \<and>
   map_of (rooms (run init waiting_room)) ''r1'' = Some \<lparr>roomId = ''r1'', players = [ann]\<rparr> \<and>
   disconnect (run init waiting_room) ''sA'' =
     \<lparr>state = (leave_all (run init waiting_room) ''sA'')\<lparr>rooms := []\<rparr>, sent = [],
      replies = [], thrown = False\<rparr>"
proof -
  have a: "distinct (map fst (rooms (run init game2)))"
    and b: "map_of (rooms (run init game2)) ''r1'' = Some \<lparr>roomId = ''r1'', players = [ann, bob]\<rparr>"
    and c: "roomId \<lparr>roomId = ''r1'', players = [ann, bob]\<rparr> = ''r1''"
    and d: "\<forall>(k, r) \<in> set (rooms (run init game2)). k \<noteq> ''r1'' \<longrightarrow> ''sB'' \<notin> player_id ` set (players r)"
    and e: "removeAll ''sB'' (adapter (run init game2) ''r1'') = [''sA'']"
    and f: "set (adapter (run init game2) ''sB'') \<subseteq> {''sB''}"
    by (simp_all add: eval_defs)
  have a': "distinct (map fst (rooms (run init waiting_room)))"
    and b': "map_of (rooms (run init waiting_room)) ''r1'' = Some \<lparr>roomId = ''r1'', players = [ann]\<rparr>"
    and c': "roomId \<lparr>roomId = ''r1'', players = [ann]\<rparr> = ''r1''"
    and d': "\<forall>(k, r) \<in> set (rooms (run init waiting_room)). k \<noteq> ''r1'' \<longrightarrow> ''sA'' \<notin> player_id ` set (players r)"
    and f': "set (adapter (run init waiting_room) ''sA'') \<subseteq> {''sA''}"
    by (simp_all add: eval_defs)
  from disconnect_notifies_or_deletes [OF a b c d f, of ann bob "''sA''"] e
  have "disconnect (run init game2) ''sB'' =
     \<lparr>state = leave_all (run init game2) ''sB'', sent = [(''sA'', PlayerDisconnected bob)],
      replies = [], thrown = False\<rparr>"
    by (simp add: ann_def bob_def insert_commute)
  moreover from disconnect_notifies_or_deletes [OF a' b' c' d' f', of ann bob "''sA''"]
  have "disconnect (run init waiting_room) ''sA'' =
     \<lparr>state = (leave_all (run init waiting_room) ''sA'')\<lparr>rooms := []\<rparr>, sent = [],
      replies = [], thrown = False\<rparr>"
    by (simp add: ann_def rooms_waiting)
  ultimately show ?thesis using b e f b' by blast
qed

text \<open>
  The claim as first stated has the two-player room deleted by the disconnect.  It is
  not: after Bob's disconnect the store still holds \<open>r1\<close> with both players listed.
\<close>

theorem disconnect_keeps_two_player_room:
  "rooms (state (disconnect (run init game2) ''sB'')) =
     [(''r1'', \<lparr>roomId = ''r1'', players = [ann, bob]\<rparr>)] \<and>
   sent (disconnect (run init game2) ''sB'') = [(''sA'', PlayerDisconnected bob)]"
  by (simp add: eval_defs)

section \<open>Closing a room\<close>

text \<open>
  C6 (as the code has it). \<^verbatim>\<open>closeRoom\<close> never throws; for a room id that has no entry
  it leaves the store as it is, and when no socket is in the transport room of that name
  either, it changes and sends nothing at all.  A second \<^verbatim>\<open>closeRoom\<close> for the same id, from any socket,
  right after a first one is such a call: the state stays what the first call left and
  no \<^verbatim>\<open>closeRoom\<close> event is delivered again.
\<close>

theorem closeRoom_idempotent:
  "\<not> thrown (closeRoom s c rid) \<and>
   (map_of (rooms s) rid = None \<longrightarrow> rooms (state (closeRoom s c rid)) = rooms s) \<and>
   (map_of (rooms s) rid = None \<and> adapter s rid = [] \<longrightarrow>
      closeRoom s c rid = \<lparr>state = s, sent = [], replies = [], thrown = False\<rparr>) \<and>
   closeRoom (state (closeRoom s c rid)) c' rid =
     \<lparr>state = state (closeRoom s c rid), sent = [], replies = [], thrown = False\<rparr>"
proof -
  have noop: "closeRoom s' c'' rid = \<lparr>state = s', sent = [], replies = [], thrown = False\<rparr>"
    if r: "rid \<notin> fst ` set (rooms s')" and a: "adapter s' rid = []" for s' c''
  proof -
    have "(adapter s')(rid := []) = adapter s'"
      using a by (simp add: fun_eq_iff)
    then show ?thesis
      using a r by (simp add: closeRoom_outcome [of s'] emit_to_def)
  qed
  have "\<not> thrown (closeRoom s c rid)"
    by (simp add: closeRoom_outcome)
  moreover have "rooms (state (closeRoom s c rid)) = rooms s" if "map_of (rooms s) rid = None"
  proof -
    from that have "rid \<notin> fst ` set (rooms s)"
      by (simp add: map_of_eq_None_iff)
    then show ?thesis
      by (simp add: closeRoom_outcome)
  qed
  moreover have "closeRoom s c rid = \<lparr>state = s, sent = [], replies = [], thrown = False\<rparr>"
    if "map_of (rooms s) rid = None" "adapter s rid = []"
    using that by (intro noop) (simp_all add: map_of_eq_None_iff)
  moreover have "closeRoom (state (closeRoom s c rid)) c' rid =
     \<lparr>state = state (closeRoom s c rid), sent = [], replies = [], thrown = False\<rparr>"
    by (intro noop) (simp_all add: closeRoom_outcome AList.delete_notin_dom)
  ultimately show ?thesis by blast
qed

text \<open>
  Ann closes the two-player room \<open>r1\<close>: Bob is told once.  Bob's own \<^verbatim>\<open>closeRoom\<close> for
  \<open>r1\<close> after that changes and sends nothing.  A \<^verbatim>\<open>closeRoom\<close> for \<open>r2\<close>, which never
  existed, leaves the store as it is.
\<close>

theorem closeRoom_idempotent_witness:
  "sent (closeRoom (run init game2) ''sA'' ''r1'') = [(''sB'', CloseRoom ''r1'')] \<and>
   closeRoom (state (closeRoom (run init game2) ''sA'' ''r1'')) ''sB'' ''r1'' =
     \<lparr>state = state (closeRoom (run init game2) ''sA'' ''r1''), sent = [], replies = [], thrown = False\<rparr> \<and>
   map_of (rooms (run init game2)) ''r2'' = None \<and>
   adapter (run init game2) ''r2'' = [] \<and>
   rooms (state (closeRoom (run init game2) ''sA'' ''r2'')) = rooms (run init game2) \<and>
   closeRoom (run init game2) ''sA'' ''r2'' =
     \<lparr>state = run init game2, sent = [], replies = [], thrown = False\<rparr>"
proof -
  have h: "map_of (rooms (run init game2)) ''r2'' = None"
    "adapter (run init game2) ''r2'' = []"
    by (simp_all add: eval_defs)
  have s: "sent (closeRoom (run init game2) ''sA'' ''r1'') = [(''sB'', CloseRoom ''r1'')]"
    by (simp add: eval_defs)
  from closeRoom_idempotent [of "run init game2" "''sA''" "''r1''" "''sB''"]
    closeRoom_idempotent [of "run init game2" "''sA''" "''r2''" "''sB''"] h s
  show ?thesis by blast
qed

text \<open>
  An id without an entry in the store does not by itself make \<^verbatim>\<open>closeRoom\<close> a no-op:
  the handler broadcasts to, and empties, whatever transport room the id names.  Bob
  sends \<^verbatim>\<open>closeRoom\<close> naming Ann's socket id, which is no key of the store: Ann is sent a
  \<^verbatim>\<open>closeRoom\<close> event and her socket leaves the room of its own name.
\<close>

theorem closeRoom_absent_id_not_noop:
  "map_of (rooms (run init game2)) ''sA'' = None \<and>
   adapter (run init game2) ''sA'' = [''sA''] \<and>
   sent (closeRoom (run init game2) ''sB'' ''sA'') = [(''sA'', CloseRoom ''sA'')] \<and>
   adapter (state (closeRoom (run init game2) ''sB'' ''sA'')) ''sA'' = []"
  by (simp add: eval_defs)

text \<open>
  C10. \<^verbatim>\<open>closeRoom\<close> checks neither membership nor authorisation: whatever socket sends
  it and whatever room id it names, afterwards the store has no entry for that id, and
  every other entry is as before.
\<close>

theorem closeRoom_removes_entry:
  "map_of (rooms (state (closeRoom s c rid))) = (map_of (rooms s))(rid := None)"
  by (simp add: closeRoom_def Let_def fold_socket_leave_rooms AList.delete_conv')

text \<open>
  A socket \<open>sC\<close> that is not a player of \<open>r1\<close> closes it: the store is empty, and both
  players are told.
\<close>

lemma closeRoom_by_outsider:
  "rooms (state (closeRoom (run init (game2 @ [Connection ''sC''])) ''sC'' ''r1'')) = [] \<and>
   sent (closeRoom (run init (game2 @ [Connection ''sC''])) ''sC'' ''r1'') =
     [(''sA'', CloseRoom ''r1''), (''sB'', CloseRoom ''r1'')]"
  by (simp add: eval_defs)

end
